theory Spec2Isabelle
  imports Main "HOL-Library.Word" "HOL-Library.Sublist" "HOL-Library.Multiset"
begin

section \<open>Data model\<close>

text \<open>
  The authentication controller keeps, for every user document, an array
  \<open>refreshTokens\<close> of entries \<open>{ token, expiresAt }\<close>: \<open>token\<close> is the hex digest of a
  raw refresh token, \<open>expiresAt\<close> a date, read here as its \<open>getTime()\<close> value in
  milliseconds. A user document carries its \<open>_id\<close> (here \<open>uid\<close>), \<open>name\<close>, \<open>email\<close>, the
  stored credential and the array.
\<close>

record entry =
  token :: string
  expiresAt :: int

record user =
  uid :: nat
  name :: string
  email :: string
  password :: string
  refreshTokens :: "entry list"

text \<open>
  The users collection is the list of its documents in natural order. A loaded
  document is handled together with its position in the collection, and
  \<open>user.save()\<close> writes the document back to that position.
\<close>

type_synonym db = "user list"

definition save :: "db \<Rightarrow> nat \<Rightarrow> user \<Rightarrow> db" where
  "save users i u = users[i := u]"

definition has_token :: "string \<Rightarrow> user \<Rightarrow> bool" where
  "has_token hashedToken u = list_ex (\<lambda>e. token e = hashedToken) (refreshTokens u)"

text \<open>\<open>User.findOne({ 'refreshTokens.token': hashedToken })\<close>: the first document one
  of whose array elements has that \<open>token\<close>.\<close>

definition findOne_by_token :: "db \<Rightarrow> string \<Rightarrow> (nat \<times> user) option" where
  "findOne_by_token users hashedToken =
     find (\<lambda>p. has_token hashedToken (snd p)) (enumerate 0 users)"

text \<open>\<open>User.findOne({ email })\<close>.\<close>

definition findOne_by_email :: "db \<Rightarrow> string \<Rightarrow> (nat \<times> user) option" where
  "findOne_by_email users em = find (\<lambda>p. email (snd p) = em) (enumerate 0 users)"

section \<open>Configuration\<close>

text \<open>
  The settings are read from the process environment once. A numeric variable is
  \<open>None\<close> when it is unset or does not read as a finite number. The numeric settings
  are taken to be whole numbers: a fractional limit or lifetime, and a lifetime so
  long that the expiry date is no valid date, are outside this model.
\<close>

record process_env =
  JWT_SECRET :: "string option"
  JWT_ACCESS_EXPIRES_IN :: "string option"
  JWT_REFRESH_DAYS :: "int option"
  JWT_REFRESH_MAX_TOKENS :: "int option"

definition parsePositiveNumber :: "int option \<Rightarrow> int \<Rightarrow> int" where
  "parsePositiveNumber v fallback =
     (case v of None \<Rightarrow> fallback
      | Some parsed \<Rightarrow> if parsed > 0 then parsed else fallback)"

definition ACCESS_TOKEN_EXPIRES_IN :: "process_env \<Rightarrow> string" where
  "ACCESS_TOKEN_EXPIRES_IN env =
     (case JWT_ACCESS_EXPIRES_IN env of None \<Rightarrow> ''15m''
      | Some s \<Rightarrow> if s = [] then ''15m'' else s)"

definition REFRESH_TOKEN_TTL_DAYS :: "process_env \<Rightarrow> int" where
  "REFRESH_TOKEN_TTL_DAYS env = parsePositiveNumber (JWT_REFRESH_DAYS env) 30"

definition MAX_REFRESH_TOKENS :: "process_env \<Rightarrow> nat" where
  "MAX_REFRESH_TOKENS env = nat (parsePositiveNumber (JWT_REFRESH_MAX_TOKENS env) 5)"

definition DAY_IN_MS :: int where
  "DAY_IN_MS = 24 * 60 * 60 * 1000"

section \<open>Library functions the controller calls\<close>

text \<open>
  The controller calls library functions whose code is not part of the repository:
  the SHA-256 digest of \<open>crypto\<close> (here from the token string to the digest bytes),
  \<open>jwt.sign\<close> (payload id, secret, lifetime), which throws when it cannot sign, for
  instance on a lifetime it cannot read, the credential check \<open>comparePassword\<close> of
  the user model, and \<open>String.prototype.trim\<close>. They are parameters of the model.
\<close>

datatype error = Error string

record library =
  sha256 :: "string \<Rightarrow> 8 word list"
  jwt_sign :: "nat \<Rightarrow> string \<Rightarrow> string \<Rightarrow> error + string"
  comparePassword :: "user \<Rightarrow> string \<Rightarrow> bool"
  String_trim :: "string \<Rightarrow> string"

text \<open>\<open>Buffer.toString('hex')\<close>: two lower-case hexadecimal digits per byte.\<close>

definition hex_digit :: "nat \<Rightarrow> char" where
  "hex_digit n = ''0123456789abcdef'' ! (n mod 16)"

definition hex_byte :: "8 word \<Rightarrow> string" where
  "hex_byte b = [hex_digit (unat b div 16), hex_digit (unat b mod 16)]"

definition toString_hex :: "8 word list \<Rightarrow> string" where
  "toString_hex bs = concat (map hex_byte bs)"

text \<open>\<open>crypto.randomBytes(n)\<close>: the next \<open>n\<close> bytes of the random source the call
  reads, given as the function from position to byte.\<close>

definition randomBytes :: "(nat \<Rightarrow> 8 word) \<Rightarrow> nat \<Rightarrow> 8 word list" where
  "randomBytes src n = map src [0..<n]"

section \<open>Token helpers\<close>

definition ensureJwtSecret :: "process_env \<Rightarrow> error + string" where
  "ensureJwtSecret env =
     (case JWT_SECRET env of
        None \<Rightarrow> Inl (Error ''Missing JWT_SECRET in environment variables'')
      | Some s \<Rightarrow>
          if s = [] then Inl (Error ''Missing JWT_SECRET in environment variables'')
          else Inr s)"

definition signAccessToken :: "library \<Rightarrow> process_env \<Rightarrow> nat \<Rightarrow> error + string" where
  "signAccessToken lib env userId =
     (case ensureJwtSecret env of
        Inl e \<Rightarrow> Inl e
      | Inr secret \<Rightarrow> jwt_sign lib userId secret (ACCESS_TOKEN_EXPIRES_IN env))"

definition generateRefreshTokenValue :: "(nat \<Rightarrow> 8 word) \<Rightarrow> string" where
  "generateRefreshTokenValue src = toString_hex (randomBytes src 40)"

definition hashToken :: "library \<Rightarrow> string \<Rightarrow> string" where
  "hashToken lib t = toString_hex (sha256 lib t)"

record user_payload =
  payload_id :: nat
  payload_name :: string
  payload_email :: string

definition buildUserPayload :: "user \<Rightarrow> user_payload" where
  "buildUserPayload u = \<lparr>payload_id = uid u, payload_name = name u, payload_email = email u\<rparr>"

text \<open>Each of the following takes the reading of \<open>Date.now()\<close> it makes as \<open>now\<close>.\<close>

definition pruneExpiredTokens :: "int \<Rightarrow> user \<Rightarrow> user" where
  "pruneExpiredTokens now u =
     u\<lparr>refreshTokens := filter (\<lambda>e. expiresAt e > now) (refreshTokens u)\<rparr>"

text \<open>\<open>enforceTokenLimit\<close> compares with the module constant \<open>MAX_REFRESH_TOKENS\<close>,
  here its argument \<open>maxSize\<close>; \<open>splice(0, excess)\<close> deletes the first \<open>excess\<close>
  elements.\<close>

definition enforceTokenLimit :: "nat \<Rightarrow> user \<Rightarrow> user" where
  "enforceTokenLimit maxSize u =
     (if length (refreshTokens u) \<le> maxSize then u
      else let excess = length (refreshTokens u) - maxSize
           in u\<lparr>refreshTokens := drop excess (refreshTokens u)\<rparr>)"

definition attachRefreshToken :: "library \<Rightarrow> process_env \<Rightarrow> int \<Rightarrow> user \<Rightarrow> string \<Rightarrow> user" where
  "attachRefreshToken lib env now u refreshTokenValue =
     (let hashed = hashToken lib refreshTokenValue;
          expires = now + REFRESH_TOKEN_TTL_DAYS env * DAY_IN_MS
      in u\<lparr>refreshTokens := refreshTokens u @ [\<lparr>token = hashed, expiresAt = expires\<rparr>]\<rparr>)"

record tokens =
  accessToken :: string
  refreshToken :: string

text \<open>
  \<open>issueTokensForUser\<close> reads the clock twice (\<open>t_prune\<close> in \<open>pruneExpiredTokens\<close>,
  \<open>t_attach\<close> in \<open>attachRefreshToken\<close>) and the random source once. It saves the
  document before it signs the access token, so the collection is written also when
  \<open>ensureJwtSecret\<close> or \<open>jwt.sign\<close> throws. The result is the collection, the document and the token pair or the
  error thrown.
\<close>

definition issueTokensForUser ::
  "library \<Rightarrow> process_env \<Rightarrow> int \<Rightarrow> int \<Rightarrow> (nat \<Rightarrow> 8 word) \<Rightarrow> db \<Rightarrow> nat \<Rightarrow> user
     \<Rightarrow> db \<times> user \<times> (error + tokens)" where
  "issueTokensForUser lib env t_prune t_attach src users i u =
     (let u1 = pruneExpiredTokens t_prune u;
          u2 = enforceTokenLimit (MAX_REFRESH_TOKENS env) u1;
          rt = generateRefreshTokenValue src;
          u3 = attachRefreshToken lib env t_attach u2 rt;
          users' = save users i u3
      in (users', u3,
          case signAccessToken lib env (uid u3) of
            Inl e \<Rightarrow> Inl e
          | Inr at \<Rightarrow> Inr \<lparr>accessToken = at, refreshToken = rt\<rparr>))"

text \<open>\<open>removeRefreshToken\<close> returns the document and whether the array got shorter.\<close>

definition removeRefreshToken :: "user \<Rightarrow> string \<Rightarrow> user \<times> bool" where
  "removeRefreshToken u hashedToken =
     (let initialLength = length (refreshTokens u);
          u' = u\<lparr>refreshTokens := filter (\<lambda>e. token e \<noteq> hashedToken) (refreshTokens u)\<rparr>
      in (u', initialLength \<noteq> length (refreshTokens u')))"

section \<open>Responses\<close>

record token_body =
  body_message :: string
  body_token :: string
  body_accessToken :: string
  body_refreshToken :: string
  body_user :: user_payload

datatype json = Message string | TokenBody token_body

record response =
  status :: nat
  body :: json

definition respond :: "nat \<Rightarrow> string \<Rightarrow> response" where
  "respond statusCode msg = \<lparr>status = statusCode, body = Message msg\<rparr>"

definition respondWithTokens :: "nat \<Rightarrow> string \<Rightarrow> user \<Rightarrow> tokens \<Rightarrow> response" where
  "respondWithTokens statusCode msg u tks =
     \<lparr>status = statusCode,
      body = TokenBody
        \<lparr>body_message = msg,
         body_token = accessToken tks,
         body_accessToken = accessToken tks,
         body_refreshToken = refreshToken tks,
         body_user = buildUserPayload u\<rparr>\<rparr>"

section \<open>Request handlers\<close>

text \<open>
  A field of the request body is a string or absent; \<open>!field\<close> holds for an absent
  field and for the empty string. Every handler returns the collection it leaves
  and its response; an exception caught by the handler's \<open>catch\<close> gives status 500.
\<close>

definition falsy :: "string option \<Rightarrow> bool" where
  "falsy v = (case v of None \<Rightarrow> True | Some s \<Rightarrow> s = [])"

text \<open>
  Modelled from the spec: \<open>User.create\<close> belongs to the user model, which is not among
  the sources; per the spec signup "creates User" whose collection is "the new empty
  collection". The new document is appended to the collection with the identifier
  \<open>newId\<close> the driver generated; \<open>pw\<close> stands for the credential the model stores.
\<close>

definition User_create :: "db \<Rightarrow> nat \<Rightarrow> string \<Rightarrow> string \<Rightarrow> string \<Rightarrow> db \<times> nat \<times> user" where
  "User_create users newId nm em pw =
     (let u = \<lparr>uid = newId, name = nm, email = em, password = pw, refreshTokens = []\<rparr>
      in (users @ [u], length users, u))"

definition signup ::
  "library \<Rightarrow> process_env \<Rightarrow> int \<Rightarrow> int \<Rightarrow> (nat \<Rightarrow> 8 word) \<Rightarrow> nat \<Rightarrow> db
     \<Rightarrow> string option \<Rightarrow> string option \<Rightarrow> string option \<Rightarrow> db \<times> response" where
  "signup lib env t_prune t_attach src newId users nm em pw =
     (if falsy nm \<or> falsy em \<or> falsy pw
      then (users, respond 400 ''Name, email and password are required'')
      else case findOne_by_email users (the em) of
        Some existingUser \<Rightarrow> (users, respond 409 ''Email already in use'')
      | None \<Rightarrow>
          (case User_create users newId (String_trim lib (the nm)) (the em) (the pw) of
             (users1, i, u) \<Rightarrow>
               (case issueTokensForUser lib env t_prune t_attach src users1 i u of
                  (users2, u', Inl e) \<Rightarrow> (users2, respond 500 ''Server error'')
                | (users2, u', Inr tks) \<Rightarrow>
                    (users2, respondWithTokens 201 ''User created successfully'' u' tks))))"

definition login ::
  "library \<Rightarrow> process_env \<Rightarrow> int \<Rightarrow> int \<Rightarrow> (nat \<Rightarrow> 8 word) \<Rightarrow> db
     \<Rightarrow> string option \<Rightarrow> string option \<Rightarrow> db \<times> response" where
  "login lib env t_prune t_attach src users em pw =
     (if falsy em \<or> falsy pw
      then (users, respond 400 ''Email and password are required'')
      else case findOne_by_email users (the em) of
        None \<Rightarrow> (users, respond 401 ''Invalid credentials'')
      | Some (i, u) \<Rightarrow>
          if \<not> comparePassword lib u (the pw)
          then (users, respond 401 ''Invalid credentials'')
          else (case issueTokensForUser lib env t_prune t_attach src users i u of
                  (users', u', Inl e) \<Rightarrow> (users', respond 500 ''Server error'')
                | (users', u', Inr tks) \<Rightarrow>
                    (users', respondWithTokens 200 ''Login successful'' u' tks)))"

text \<open>\<open>refreshAccessToken\<close> reads the clock at the expiry check (\<open>t_check\<close>) and, when
  it rotates, twice more in \<open>issueTokensForUser\<close>.\<close>

definition refreshAccessToken ::
  "library \<Rightarrow> process_env \<Rightarrow> int \<Rightarrow> int \<Rightarrow> int \<Rightarrow> (nat \<Rightarrow> 8 word) \<Rightarrow> db
     \<Rightarrow> string option \<Rightarrow> db \<times> response" where
  "refreshAccessToken lib env t_check t_prune t_attach src users rt =
     (if falsy rt then (users, respond 400 ''Refresh token is required'')
      else let hashedToken = hashToken lib (the rt) in
        case findOne_by_token users hashedToken of
          None \<Rightarrow> (users, respond 401 ''Invalid refresh token'')
        | Some (i, u) \<Rightarrow>
            let storedToken = find (\<lambda>e. token e = hashedToken) (refreshTokens u) in
            if (case storedToken of None \<Rightarrow> True | Some e \<Rightarrow> expiresAt e \<le> t_check)
            then (save users i (fst (removeRefreshToken u hashedToken)),
                  respond 401 ''Refresh token expired'')
            else (case issueTokensForUser lib env t_prune t_attach src users i
                         (fst (removeRefreshToken u hashedToken)) of
                    (users', u', Inl e) \<Rightarrow> (users', respond 500 ''Server error'')
                  | (users', u', Inr tks) \<Rightarrow>
                      (users', respondWithTokens 200 ''Token refreshed'' u' tks)))"

definition logout :: "library \<Rightarrow> db \<Rightarrow> string option \<Rightarrow> db \<times> response" where
  "logout lib users rt =
     (if falsy rt then (users, respond 400 ''Refresh token is required'')
      else let hashedToken = hashToken lib (the rt) in
        case findOne_by_token users hashedToken of
          None \<Rightarrow> (users, respond 200 ''Logged out successfully'')
        | Some (i, u) \<Rightarrow>
            (case removeRefreshToken u hashedToken of
               (u', removed) \<Rightarrow>
                 ((if removed then save users i u' else users),
                  respond 200 ''Logged out successfully'')))"

section \<open>Auxiliary definitions\<close>

text \<open>The entries of a document that survive \<open>pruneExpiredTokens\<close> followed by
  \<open>enforceTokenLimit\<close>, the first two steps of \<open>issueTokensForUser\<close>.\<close>

definition kept :: "process_env \<Rightarrow> int \<Rightarrow> user \<Rightarrow> entry list" where
  "kept env t_prune u =
     refreshTokens (enforceTokenLimit (MAX_REFRESH_TOKENS env) (pruneExpiredTokens t_prune u))"

text \<open>A response carries the token pair of \<open>respondWithTokens\<close> with the legacy field
  \<open>token\<close> equal to \<open>accessToken\<close>, and that value is what \<open>jwt.sign\<close> returned for
  the user of the payload.\<close>

definition token_fields_agree :: "library \<Rightarrow> process_env \<Rightarrow> response \<Rightarrow> bool" where
  "token_fields_agree lib env r \<longleftrightarrow>
     (\<exists>b secret. body r = TokenBody b \<and> body_token b = body_accessToken b \<and>
        JWT_SECRET env = Some secret \<and>
        jwt_sign lib (payload_id (body_user b)) secret (ACCESS_TOKEN_EXPIRES_IN env)
          = Inr (body_accessToken b))"

text \<open>
  All digests stored in the collection, document by document. Every digest the
  handlers store is that of a newly generated random token, so as long as no generated
  token repeats a stored one, no digest is stored twice, neither in one document nor
  in two: \<open>digest_unique\<close> holds of the empty collection and the handlers keep it
  (lemmas \<open>signup_keeps_digest_unique\<close> to \<open>logout_keeps_digest_unique\<close> below).
\<close>

definition stored_digests :: "db \<Rightarrow> string list" where
  "stored_digests users = concat (map (\<lambda>u. map token (refreshTokens u)) users)"

definition digest_unique :: "db \<Rightarrow> bool" where
  "digest_unique users = distinct (stored_digests users)"

text \<open>Reading a hex string back into bytes, two digits per byte.\<close>

definition hex_value :: "char \<Rightarrow> nat" where
  "hex_value c = length (takeWhile (\<lambda>d. d \<noteq> c) ''0123456789abcdef'')"

fun fromHex :: "string \<Rightarrow> 8 word list" where
  "fromHex (a # b # cs) = word_of_nat (16 * hex_value a + hex_value b) # fromHex cs"
| "fromHex cs = []"

text \<open>
  The removal operation as the specification words it ("removes the first entry
  matching \<open>hash\<close>; returns whether a match existed"), to be compared with
  \<open>removeRefreshToken\<close>.
\<close>

fun spec_remove_first :: "string \<Rightarrow> entry list \<Rightarrow> entry list \<times> bool" where
  "spec_remove_first h [] = ([], False)"
| "spec_remove_first h (e # es) =
     (if token e = h then (es, True)
      else case spec_remove_first h es of (es', removed) \<Rightarrow> (e # es', removed))"

subsection \<open>Concrete inputs\<close>

text \<open>
  A library instance, the default environment with a signing secret, a random source
  and two users, on which the handlers are evaluated below. The example digest maps a
  string to 32 bytes that all hold the string's length; the example signer refuses
  every lifetime but the default one.
\<close>

definition example_lib :: library where
  "example_lib =
     \<lparr>sha256 = (\<lambda>s. replicate 32 (word_of_nat (length s))),
      jwt_sign = (\<lambda>userId secret expiresIn.
        if expiresIn = ''15m'' then Inr (''jwt.'' @ secret @ ''.'' @ expiresIn)
        else Inl (Error ''invalid expiresIn option'')),
      comparePassword = (\<lambda>u pw. password u = pw),
      String_trim = (\<lambda>s. s)\<rparr>"

definition example_env :: process_env where
  "example_env =
     \<lparr>JWT_SECRET = Some ''secret'', JWT_ACCESS_EXPIRES_IN = None,
      JWT_REFRESH_DAYS = None, JWT_REFRESH_MAX_TOKENS = None\<rparr>"

definition example_src :: "nat \<Rightarrow> 8 word" where
  "example_src n = 171"

definition alice :: "entry list \<Rightarrow> user" where
  "alice es = \<lparr>uid = 1, name = ''A'', email = ''a@x.com'', password = ''p'', refreshTokens = es\<rparr>"

definition bob :: "entry list \<Rightarrow> user" where
  "bob es = \<lparr>uid = 2, name = ''B'', email = ''b@x.com'', password = ''q'', refreshTokens = es\<rparr>"

definition digest_t :: string where
  "digest_t = hashToken example_lib ''t''"

text \<open>\<open>n\<close> successive logins of the first user, all at time 0, each with its own
  random bytes.\<close>

fun login_n :: "nat \<Rightarrow> db \<Rightarrow> db" where
  "login_n 0 users = users"
| "login_n (Suc n) users =
     fst (login example_lib example_env 0 0 (\<lambda>k. word_of_nat n) (login_n n users)
            (Some ''a@x.com'') (Some ''p''))"

section \<open>Lemmas on the helpers\<close>

lemma findOne_by_token_None:
  "findOne_by_token users h = None \<longleftrightarrow> (\<forall>u\<in>set users. \<not> has_token h u)"
proof -
  have "findOne_by_token users h = None \<longleftrightarrow>
          (\<forall>p\<in>set (enumerate 0 users). \<not> has_token h (snd p))"
    by (auto simp: findOne_by_token_def find_None_iff)
  also have "\<dots> \<longleftrightarrow> (\<forall>u\<in>snd ` set (enumerate 0 users). \<not> has_token h u)"
    by blast
  also have "snd ` set (enumerate 0 users) = set users"
    by (metis list.set_map map_snd_enumerate)
  finally show ?thesis .
qed

lemma findOne_by_token_Some:
  "findOne_by_token users h = Some (i, u) \<longleftrightarrow>
     i < length users \<and> users ! i = u \<and> has_token h u \<and> (\<forall>j<i. \<not> has_token h (users ! j))"
  (is "?L \<longleftrightarrow> ?R")
proof
  assume ?L
  then obtain k where k: "k < length users" "enumerate 0 users ! k = (i, u)" "has_token h u"
      "\<forall>j<k. \<not> has_token h (snd (enumerate 0 users ! j))"
    unfolding findOne_by_token_def find_Some_iff
    by (metis length_enumerate snd_conv)
  from k(1,2) have "k = i" "users ! i = u" by (auto simp: nth_enumerate_eq)
  with k show ?R by (auto simp: nth_enumerate_eq)
next
  assume r: ?R
  then have "i < length (enumerate 0 users) \<and> has_token h (snd (enumerate 0 users ! i)) \<and>
     (i, u) = enumerate 0 users ! i \<and> (\<forall>j<i. \<not> has_token h (snd (enumerate 0 users ! j)))"
    by (auto simp: nth_enumerate_eq)
  then show ?L unfolding findOne_by_token_def find_Some_iff by blast
qed

lemma has_token_iff: "has_token h u \<longleftrightarrow> (\<exists>e\<in>set (refreshTokens u). token e = h)"
  by (simp add: has_token_def list_ex_iff)

lemma length_filter_eq_iff: "length (filter P xs) = length xs \<longleftrightarrow> (\<forall>x\<in>set xs. P x)"
proof
  assume eq: "length (filter P xs) = length xs"
  show "\<forall>x\<in>set xs. P x"
  proof (rule ccontr)
    assume "\<not> (\<forall>x\<in>set xs. P x)"
    then obtain x where "x \<in> set xs" "\<not> P x" by blast
    then have "length (filter P xs) < length xs" by (rule length_filter_less)
    with eq show False by simp
  qed
next
  assume "\<forall>x\<in>set xs. P x"
  then have "filter P xs = xs" by (simp add: filter_id_conv)
  then show "length (filter P xs) = length xs" by simp
qed

lemma removed_iff_has_token: "snd (removeRefreshToken u h) = has_token h u"
  using length_filter_eq_iff [of "\<lambda>e. token e \<noteq> h" "refreshTokens u"]
  by (auto simp: removeRefreshToken_def Let_def has_token_iff)

lemma refreshTokens_removeRefreshToken:
  "refreshTokens (fst (removeRefreshToken u h)) = filter (\<lambda>e. token e \<noteq> h) (refreshTokens u)"
  by (simp add: removeRefreshToken_def Let_def)

lemma fst_removeRefreshToken:
  "fst (removeRefreshToken u h) = u\<lparr>refreshTokens := filter (\<lambda>e. token e \<noteq> h) (refreshTokens u)\<rparr>"
  by (simp add: removeRefreshToken_def Let_def)

lemma not_has_token_removeRefreshToken: "\<not> has_token h (fst (removeRefreshToken u h))"
  by (simp add: has_token_iff refreshTokens_removeRefreshToken)

lemma removeRefreshToken_absent:
  "\<not> has_token h u \<Longrightarrow> fst (removeRefreshToken u h) = u"
proof -
  assume "\<not> has_token h u"
  then have "filter (\<lambda>e. token e \<noteq> h) (refreshTokens u) = refreshTokens u"
    by (simp add: has_token_iff filter_id_conv)
  then show ?thesis by (simp add: fst_removeRefreshToken)
qed

lemma refreshTokens_enforceTokenLimit:
  "refreshTokens (enforceTokenLimit m u) = drop (length (refreshTokens u) - m) (refreshTokens u)"
  by (simp add: enforceTokenLimit_def Let_def)

lemma set_kept: "set (kept env t_prune u) \<subseteq> set (refreshTokens u)"
proof -
  have "set (kept env t_prune u) \<subseteq> set (refreshTokens (pruneExpiredTokens t_prune u))"
    unfolding kept_def refreshTokens_enforceTokenLimit by (rule set_drop_subset)
  then show ?thesis by (auto simp: pruneExpiredTokens_def)
qed

lemma length_toString_hex: "length (toString_hex bs) = 2 * length bs"
  by (induction bs) (simp_all add: toString_hex_def hex_byte_def)

lemma length_generateRefreshTokenValue: "length (generateRefreshTokenValue src) = 80"
  by (simp add: generateRefreshTokenValue_def length_toString_hex randomBytes_def)

section \<open>Lemmas on issuance and the handlers\<close>

lemma issued_document:
  "fst (snd (issueTokensForUser lib env t_prune t_attach src users i u)) =
     u\<lparr>refreshTokens := kept env t_prune u @
        [\<lparr>token = hashToken lib (generateRefreshTokenValue src),
          expiresAt = t_attach + REFRESH_TOKEN_TTL_DAYS env * DAY_IN_MS\<rparr>]\<rparr>"
  by (simp add: issueTokensForUser_def Let_def attachRefreshToken_def kept_def
      enforceTokenLimit_def pruneExpiredTokens_def)

lemma issued_collection:
  "fst (issueTokensForUser lib env t_prune t_attach src users i u) =
     users[i := fst (snd (issueTokensForUser lib env t_prune t_attach src users i u))]"
  by (simp add: issueTokensForUser_def Let_def save_def)

lemma issued_tokens:
  "snd (snd (issueTokensForUser lib env t_prune t_attach src users i u)) =
     (case signAccessToken lib env (uid u) of Inl e \<Rightarrow> Inl e
      | Inr at \<Rightarrow> Inr \<lparr>accessToken = at, refreshToken = generateRefreshTokenValue src\<rparr>)"
  by (simp add: issueTokensForUser_def Let_def attachRefreshToken_def
      enforceTokenLimit_def pruneExpiredTokens_def split: sum.splits)

lemma signAccessToken_Inr:
  "signAccessToken lib env userId = Inr at \<longleftrightarrow>
     (\<exists>secret. JWT_SECRET env = Some secret \<and> secret \<noteq> [] \<and>
        jwt_sign lib userId secret (ACCESS_TOKEN_EXPIRES_IN env) = Inr at)"
  by (auto simp: signAccessToken_def ensureJwtSecret_def split: option.splits sum.splits)

text \<open>The collection saved by \<open>issueTokensForUser\<close> holds one entry more than the limit
  lets through: the limit is applied before the new entry is pushed.\<close>

lemma issued_length:
  "length (refreshTokens (fst (snd (issueTokensForUser lib env t_prune t_attach src users i u)))) =
     min (MAX_REFRESH_TOKENS env) (length (filter (\<lambda>e. t_prune < expiresAt e) (refreshTokens u))) + 1"
  by (simp add: issued_document kept_def refreshTokens_enforceTokenLimit pruneExpiredTokens_def)


lemma issued_Inr:
  assumes "issueTokensForUser lib env t_prune t_attach src users i u = (users', u', Inr tks)"
  shows "uid u' = uid u \<and> (\<exists>secret. JWT_SECRET env = Some secret \<and>
           jwt_sign lib (uid u') secret (ACCESS_TOKEN_EXPIRES_IN env) = Inr (accessToken tks))"
proof -
  from assms have u': "u' = fst (snd (issueTokensForUser lib env t_prune t_attach src users i u))"
    and tks: "snd (snd (issueTokensForUser lib env t_prune t_attach src users i u)) = Inr tks"
    by simp_all
  from u' have uid: "uid u' = uid u" by (simp add: issued_document)
  from tks have "signAccessToken lib env (uid u) = Inr (accessToken tks)"
    by (auto simp: issued_tokens split: sum.splits)
  then obtain secret where "JWT_SECRET env = Some secret"
      "jwt_sign lib (uid u) secret (ACCESS_TOKEN_EXPIRES_IN env) = Inr (accessToken tks)"
    by (auto simp: signAccessToken_Inr)
  then show ?thesis using uid by simp
qed

lemma respondWithTokens_agree:
  assumes "issueTokensForUser lib env t_prune t_attach src users i u = (users', u', Inr tks)"
  shows "token_fields_agree lib env (respondWithTokens code msg u' tks)"
  using issued_Inr [OF assms]
  by (auto simp: token_fields_agree_def respondWithTokens_def buildUserPayload_def)

lemma signup_agree:
  assumes "status (snd (signup lib env t_prune t_attach src newId users nm em pw)) \<in> {200, 201}"
  shows "token_fields_agree lib env (snd (signup lib env t_prune t_attach src newId users nm em pw))"
  using assms
  by (auto simp: signup_def respond_def respondWithTokens_agree
      split: if_splits option.splits prod.splits sum.splits)

lemma login_agree:
  assumes "status (snd (login lib env t_prune t_attach src users em pw)) \<in> {200, 201}"
  shows "token_fields_agree lib env (snd (login lib env t_prune t_attach src users em pw))"
  using assms
  by (auto simp: login_def respond_def respondWithTokens_agree
      split: if_splits option.splits prod.splits sum.splits)

lemma refresh_agree:
  assumes "status (snd (refreshAccessToken lib env t_check t_prune t_attach src users rt)) \<in> {200, 201}"
  shows "token_fields_agree lib env (snd (refreshAccessToken lib env t_check t_prune t_attach src users rt))"
  using assms
  by (auto simp: refreshAccessToken_def Let_def respond_def respondWithTokens_agree
      split: if_splits option.splits prod.splits sum.splits)

lemma refresh_not_found:
  assumes "t \<noteq> []" and "findOne_by_token users (hashToken lib t) = None"
  shows "refreshAccessToken lib env t_check t_prune t_attach src users (Some t) =
           (users, \<lparr>status = 401, body = Message ''Invalid refresh token''\<rparr>)"
  using assms by (simp add: refreshAccessToken_def falsy_def respond_def)

lemma refresh_valid_match:
  assumes "t \<noteq> []"
    and "findOne_by_token users (hashToken lib t) = Some (i, u)"
    and "find (\<lambda>x. token x = hashToken lib t) (refreshTokens u) = Some e"
    and "t_check < expiresAt e"
  shows "refreshAccessToken lib env t_check t_prune t_attach src users (Some t) =
     (users[i := fst (snd (issueTokensForUser lib env t_prune t_attach src users i
                             (fst (removeRefreshToken u (hashToken lib t)))))],
      case signAccessToken lib env (uid u) of
        Inl err \<Rightarrow> respond 500 ''Server error''
      | Inr at \<Rightarrow>
          respondWithTokens 200 ''Token refreshed''
            (fst (snd (issueTokensForUser lib env t_prune t_attach src users i
                             (fst (removeRefreshToken u (hashToken lib t))))))
            \<lparr>accessToken = at, refreshToken = generateRefreshTokenValue src\<rparr>)"
proof -
  let ?u' = "fst (removeRefreshToken u (hashToken lib t))"
  let ?I = "issueTokensForUser lib env t_prune t_attach src users i ?u'"
  have nf: "\<not> falsy (Some t)" using assms(1) by (simp add: falsy_def)
  have uid: "uid ?u' = uid u" by (simp add: fst_removeRefreshToken)
  obtain us' u'' r where I: "?I = (us', u'', r)"
    by (cases ?I) auto
  then have u'': "u'' = fst (snd ?I)" and r0: "r = snd (snd ?I)" and us0: "us' = fst ?I"
    by simp_all
  from us0 have us': "us' = users[i := fst (snd ?I)]"
    by (simp only: issued_collection)
  from r0 have r: "r = (case signAccessToken lib env (uid u) of Inl e \<Rightarrow> Inl e
      | Inr at \<Rightarrow> Inr \<lparr>accessToken = at, refreshToken = generateRefreshTokenValue src\<rparr>)"
    by (simp only: issued_tokens uid)
  have "refreshAccessToken lib env t_check t_prune t_attach src users (Some t) =
        (case r of Inl e \<Rightarrow> (us', respond 500 ''Server error'')
                 | Inr tks \<Rightarrow> (us', respondWithTokens 200 ''Token refreshed'' u'' tks))"
    unfolding refreshAccessToken_def using nf assms(4)
    by (simp add: assms(2,3) I)
  then show ?thesis
    unfolding r us' u'' by (simp split: sum.splits)
qed

lemma logout_found:
  assumes "t \<noteq> []" and "findOne_by_token users (hashToken lib t) = Some (i, u)"
  shows "logout lib users (Some t) =
           (users[i := fst (removeRefreshToken u (hashToken lib t))],
            \<lparr>status = 200, body = Message ''Logged out successfully''\<rparr>)"
proof -
  from assms(2) have "has_token (hashToken lib t) u"
    by (simp add: findOne_by_token_Some)
  then have "snd (removeRefreshToken u (hashToken lib t))"
    by (simp add: removed_iff_has_token)
  with assms show ?thesis
    by (simp add: logout_def falsy_def respond_def save_def case_prod_beta)
qed

lemma logout_not_found:
  assumes "t \<noteq> []" and "findOne_by_token users (hashToken lib t) = None"
  shows "logout lib users (Some t) =
           (users, \<lparr>status = 200, body = Message ''Logged out successfully''\<rparr>)"
  using assms by (simp add: logout_def falsy_def respond_def)

lemma update_only_holder:
  assumes "i < length users" "users ! i = u"
    and "\<forall>j<length users. j \<noteq> i \<longrightarrow> \<not> has_token h (users ! j)"
  shows "users[i := fst (removeRefreshToken u h)] = map (\<lambda>v. fst (removeRefreshToken v h)) users"
proof (rule nth_equalityI)
  show "length (users[i := fst (removeRefreshToken u h)]) =
        length (map (\<lambda>v. fst (removeRefreshToken v h)) users)" by simp
next
  fix j assume "j < length (users[i := fst (removeRefreshToken u h)])"
  then have j: "j < length users" by simp
  show "users[i := fst (removeRefreshToken u h)] ! j = map (\<lambda>v. fst (removeRefreshToken v h)) users ! j"
  proof (cases "j = i")
    case True
    with assms(1,2) show ?thesis by simp
  next
    case False
    with assms(3) j have "\<not> has_token h (users ! j)" by simp
    then have "fst (removeRefreshToken (users ! j) h) = users ! j"
      by (rule removeRefreshToken_absent)
    with False j show ?thesis by simp
  qed
qed

section \<open>States of the store: no digest stored twice\<close>

lemma stored_digests_Nil: "stored_digests [] = []"
  by (simp add: stored_digests_def)

lemma stored_digests_Cons:
  "stored_digests (u # users) = map token (refreshTokens u) @ stored_digests users"
  by (simp add: stored_digests_def)

lemma stored_digests_append:
  "stored_digests (us @ vs) = stored_digests us @ stored_digests vs"
  by (simp add: stored_digests_def)

lemma set_stored_digests:
  "set (stored_digests users) = (\<Union>u\<in>set users. token ` set (refreshTokens u))"
  by (simp add: stored_digests_def)

lemma in_stored_digests_iff:
  "h \<in> set (stored_digests users) \<longleftrightarrow> (\<exists>u\<in>set users. has_token h u)"
  by (auto simp: set_stored_digests has_token_iff)

lemma stored_digests_split:
  assumes "i < length users"
  shows "stored_digests users =
           stored_digests (take i users) @ map token (refreshTokens (users ! i))
             @ stored_digests (drop (Suc i) users)"
proof -
  have "users = take i users @ users ! i # drop (Suc i) users"
    using assms by (rule id_take_nth_drop)
  then have "stored_digests users =
      stored_digests (take i users @ users ! i # drop (Suc i) users)" by simp
  then show ?thesis
    by (simp only: stored_digests_append stored_digests_Cons)
qed

lemma stored_digests_update:
  assumes "i < length users"
  shows "stored_digests (users[i := u]) =
           stored_digests (take i users) @ map token (refreshTokens u)
             @ stored_digests (drop (Suc i) users)"
proof -
  have "users[i := u] = take i users @ u # drop (Suc i) users"
    using assms by (rule upd_conv_take_nth_drop)
  then show ?thesis
    by (simp only: stored_digests_append stored_digests_Cons)
qed

text \<open>Under \<open>digest_unique\<close> a digest belongs to one document, and to one entry of it.\<close>

lemma digest_unique_document:
  assumes "digest_unique users" and "i < length users"
  shows "distinct (map token (refreshTokens (users ! i)))"
  using assms unfolding digest_unique_def
  by (simp add: stored_digests_split [OF assms(2)])

lemma digest_unique_holder:
  assumes "digest_unique users" and "i < length users" and "j < length users"
    and "has_token h (users ! i)" and "has_token h (users ! j)"
  shows "i = j"
proof (rule ccontr)
  assume ne: "i \<noteq> j"
  have aux: False
    if lt: "a < b" and b: "b < length users" and ha: "has_token h (users ! a)"
      and hb: "has_token h (users ! b)" for a b
  proof -
    from lt b have "users ! a \<in> set (take b users)"
      by (metis in_set_conv_nth length_take min.absorb2 less_imp_le nth_take)
    with ha have "h \<in> set (stored_digests (take b users))"
      by (auto simp: in_stored_digests_iff)
    moreover from hb have "h \<in> set (map token (refreshTokens (users ! b)))"
      by (auto simp: has_token_iff)
    ultimately show False
      using assms(1) unfolding digest_unique_def stored_digests_split [OF b]
      by auto
  qed
  from ne consider "i < j" | "j < i" by linarith
  then show False
    using aux assms(2-5) by cases blast+
qed

lemma digest_unique_findOne:
  assumes "digest_unique users" and "i < length users" and "has_token h (users ! i)"
  shows "findOne_by_token users h = Some (i, users ! i)"
proof -
  have "\<forall>j<i. \<not> has_token h (users ! j)"
    using digest_unique_holder [OF assms(1) assms(2) _ assms(3)] assms(2)
    by (metis less_irrefl less_trans)
  with assms(2,3) show ?thesis
    by (simp add: findOne_by_token_Some)
qed

lemma find_distinct_token:
  "distinct (map token xs) \<Longrightarrow> e \<in> set xs \<Longrightarrow> find (\<lambda>x. token x = token e) xs = Some e"
  by (induction xs) (auto simp: image_iff)

lemma filter_distinct_token:
  "distinct (map token xs) \<Longrightarrow> e \<in> set xs \<Longrightarrow>
     filter (\<lambda>x. token x \<noteq> token e) xs = remove1 e xs"
proof (induction xs)
  case Nil
  then show ?case by simp
next
  case (Cons x xs)
  show ?case
  proof (cases "x = e")
    case True
    with Cons.prems have "\<forall>y\<in>set xs. token y \<noteq> token e" by (auto simp: image_iff)
    then have "filter (\<lambda>x. token x \<noteq> token e) xs = xs" by (simp add: filter_id_conv)
    with True show ?thesis by simp
  next
    case False
    with Cons.prems have "e \<in> set xs" "token x \<noteq> token e" by (auto simp: image_iff)
    with Cons show ?thesis using False by simp
  qed
qed

lemma distinct_replace_middle:
  assumes "distinct (P @ X @ Q)" and "distinct Y" and "set Y \<subseteq> set X \<union> N"
    and "N \<inter> (set P \<union> set X \<union> set Q) = {}"
  shows "distinct (P @ Y @ Q)"
proof -
  from assms(1) have "distinct P" "distinct Q" "set P \<inter> set X = {}" "set P \<inter> set Q = {}"
      "set X \<inter> set Q = {}"
    by auto
  moreover from assms(3,4) \<open>set P \<inter> set X = {}\<close> have "set P \<inter> set Y = {}" by blast
  moreover from assms(3,4) \<open>set X \<inter> set Q = {}\<close> have "set Y \<inter> set Q = {}" by blast
  ultimately show ?thesis using assms(2) by auto
qed

lemma digest_unique_replace:
  assumes "digest_unique users" and "i < length users"
    and "distinct (map token (refreshTokens u))"
    and "set (map token (refreshTokens u))
           \<subseteq> set (map token (refreshTokens (users ! i))) \<union> N"
    and "N \<inter> set (stored_digests users) = {}"
  shows "digest_unique (users[i := u])"
proof -
  let ?P = "stored_digests (take i users)" and ?Q = "stored_digests (drop (Suc i) users)"
  let ?X = "map token (refreshTokens (users ! i))" and ?Y = "map token (refreshTokens u)"
  from assms(1) have d: "distinct (?P @ ?X @ ?Q)"
    unfolding digest_unique_def stored_digests_split [OF assms(2)] .
  from assms(5) have n: "N \<inter> (set ?P \<union> set ?X \<union> set ?Q) = {}"
    unfolding stored_digests_split [OF assms(2)] by auto
  from d assms(3,4) n have "distinct (?P @ ?Y @ ?Q)"
    by (rule distinct_replace_middle)
  then show ?thesis
    unfolding digest_unique_def stored_digests_update [OF assms(2)] .
qed

lemma unique_entry_lookup:
  assumes "digest_unique users" and "i < length users"
    and "e \<in> set (refreshTokens (users ! i))" and "token e = h"
  shows "findOne_by_token users h = Some (i, users ! i)"
    and "find (\<lambda>x. token x = h) (refreshTokens (users ! i)) = Some e"
    and "fst (removeRefreshToken (users ! i) h) =
           (users ! i)\<lparr>refreshTokens := remove1 e (refreshTokens (users ! i))\<rparr>"
    and "e \<notin> set (remove1 e (refreshTokens (users ! i)))"
proof -
  have d: "distinct (map token (refreshTokens (users ! i)))"
    using assms(1,2) by (rule digest_unique_document)
  from assms(3,4) have "has_token h (users ! i)"
    by (auto simp: has_token_iff)
  with assms(1,2) show "findOne_by_token users h = Some (i, users ! i)"
    by (rule digest_unique_findOne)
  from find_distinct_token [OF d assms(3)] assms(4)
  show "find (\<lambda>x. token x = h) (refreshTokens (users ! i)) = Some e" by simp
  from filter_distinct_token [OF d assms(3)] assms(4)
  show "fst (removeRefreshToken (users ! i) h) =
           (users ! i)\<lparr>refreshTokens := remove1 e (refreshTokens (users ! i))\<rparr>"
    by (simp add: fst_removeRefreshToken)
  from d have "distinct (refreshTokens (users ! i))"
    by (simp add: distinct_map)
  then show "e \<notin> set (remove1 e (refreshTokens (users ! i)))"
    by simp
qed

lemma findOne_by_email_SomeD:
  assumes "findOne_by_email users em = Some (i, u)"
  shows "i < length users \<and> users ! i = u"
proof -
  from assms obtain k where k: "k < length users" "enumerate 0 users ! k = (i, u)"
    unfolding findOne_by_email_def find_Some_iff
    by (metis length_enumerate)
  then show ?thesis by (auto simp: nth_enumerate_eq)
qed

lemma remove_keeps_digest_unique:
  assumes "digest_unique users" and "i < length users"
  shows "digest_unique (users[i := fst (removeRefreshToken (users ! i) h)])"
proof (rule digest_unique_replace [OF assms, where N = "{}"])
  show "distinct (map token (refreshTokens (fst (removeRefreshToken (users ! i) h))))"
    using digest_unique_document [OF assms]
    by (simp add: refreshTokens_removeRefreshToken distinct_map_filter)
  show "set (map token (refreshTokens (fst (removeRefreshToken (users ! i) h))))
          \<subseteq> set (map token (refreshTokens (users ! i))) \<union> {}"
    by (auto simp: refreshTokens_removeRefreshToken)
  show "{} \<inter> set (stored_digests users) = {}" by simp
qed

lemma distinct_kept:
  assumes "distinct (map token (refreshTokens u))"
  shows "distinct (map token (kept env t_prune u))"
proof -
  have "map token (kept env t_prune u) =
          drop (length (filter (\<lambda>e. t_prune < expiresAt e) (refreshTokens u)) - MAX_REFRESH_TOKENS env)
            (map token (filter (\<lambda>e. t_prune < expiresAt e) (refreshTokens u)))"
    by (simp add: kept_def refreshTokens_enforceTokenLimit pruneExpiredTokens_def drop_map)
  with assms show ?thesis
    by (simp add: distinct_map_filter)
qed

lemma issue_keeps_digest_unique:
  assumes "digest_unique users" and "i < length users"
    and "distinct (map token (refreshTokens u))"
    and "set (map token (refreshTokens u)) \<subseteq> set (map token (refreshTokens (users ! i)))"
    and "hashToken lib (generateRefreshTokenValue src) \<notin> set (stored_digests users)"
  shows "digest_unique (fst (issueTokensForUser lib env t_prune t_attach src users i u))"
proof -
  let ?d = "hashToken lib (generateRefreshTokenValue src)"
  let ?u3 = "fst (snd (issueTokensForUser lib env t_prune t_attach src users i u))"
  have toks: "map token (refreshTokens ?u3) = map token (kept env t_prune u) @ [?d]"
    by (simp add: issued_document)
  have sub: "set (map token (kept env t_prune u)) \<subseteq> set (map token (refreshTokens (users ! i)))"
    using set_kept [of env t_prune u] assms(4) by auto
  have "set (map token (refreshTokens (users ! i))) \<subseteq> set (stored_digests users)"
    unfolding stored_digests_split [OF assms(2)] by auto
  with sub assms(5) have "?d \<notin> set (map token (kept env t_prune u))" by blast
  with distinct_kept [OF assms(3), of env t_prune]
  have d: "distinct (map token (refreshTokens ?u3))"
    unfolding toks by simp
  have s: "set (map token (refreshTokens ?u3))
             \<subseteq> set (map token (refreshTokens (users ! i))) \<union> {?d}"
    unfolding toks using sub by auto
  from assms(5) have n: "{?d} \<inter> set (stored_digests users) = {}" by simp
  from digest_unique_replace [OF assms(1,2) d s n] show ?thesis
    by (simp only: issued_collection)
qed

lemma login_keeps_digest_unique:
  assumes "digest_unique users"
    and "hashToken lib (generateRefreshTokenValue src) \<notin> set (stored_digests users)"
  shows "digest_unique (fst (login lib env t_prune t_attach src users em pw))"
proof (cases "findOne_by_email users (the em)")
  case None
  with assms(1) show ?thesis by (simp add: login_def)
next
  case (Some p)
  obtain i u where p: "p = (i, u)" by (cases p)
  with Some findOne_by_email_SomeD have iu: "i < length users" "users ! i = u" by blast+
  have "digest_unique (fst (issueTokensForUser lib env t_prune t_attach src users i u))"
    using issue_keeps_digest_unique [OF assms(1) iu(1) _ _ assms(2)]
      digest_unique_document [OF assms(1) iu(1)] iu(2) by simp
  with assms(1) Some p show ?thesis
    by (auto simp: login_def split: prod.splits sum.splits)
qed

lemma signup_keeps_digest_unique:
  assumes "digest_unique users"
    and "hashToken lib (generateRefreshTokenValue src) \<notin> set (stored_digests users)"
  shows "digest_unique (fst (signup lib env t_prune t_attach src newId users nm em pw))"
proof -
  let ?u = "\<lparr>uid = newId, name = String_trim lib (the nm), email = the em, password = the pw,
             refreshTokens = []\<rparr>"
  have sd: "stored_digests (users @ [?u]) = stored_digests users"
    by (simp add: stored_digests_append stored_digests_Cons stored_digests_Nil)
  with assms have a: "digest_unique (users @ [?u])"
      "hashToken lib (generateRefreshTokenValue src) \<notin> set (stored_digests (users @ [?u]))"
    by (simp_all add: digest_unique_def)
  have "digest_unique (fst (issueTokensForUser lib env t_prune t_attach src (users @ [?u])
                              (length users) ?u))"
    by (rule issue_keeps_digest_unique [OF a(1) _ _ _ a(2)]) simp_all
  with assms(1) show ?thesis
    by (auto simp: signup_def User_create_def Let_def split: option.splits prod.splits sum.splits)
qed

lemma logout_keeps_digest_unique:
  assumes "digest_unique users"
  shows "digest_unique (fst (logout lib users rt))"
proof (cases "falsy rt")
  case True
  with assms show ?thesis by (simp add: logout_def)
next
  case False
  show ?thesis
  proof (cases "findOne_by_token users (hashToken lib (the rt))")
    case None
    with assms False show ?thesis by (simp add: logout_def)
  next
    case (Some p)
    obtain i u where p: "p = (i, u)" by (cases p)
    with Some have iu: "i < length users" "users ! i = u"
      by (simp_all add: findOne_by_token_Some)
    from remove_keeps_digest_unique [OF assms iu(1)] iu(2)
    have "digest_unique (users[i := fst (removeRefreshToken u (hashToken lib (the rt)))])"
      by simp
    with assms False Some p show ?thesis
      by (simp add: logout_def Let_def save_def case_prod_beta)
  qed
qed


text \<open>When the lookup matches a valid entry, the refresh succeeds exactly when the
  access token can be signed.\<close>

lemma refresh_succeeds_iff:
  assumes "digest_unique users" and "t \<noteq> []"
    and "i < length users" and "e \<in> set (refreshTokens (users ! i))"
    and "token e = hashToken lib t" and "t_check < expiresAt e"
  shows "status (snd (refreshAccessToken lib env t_check t_prune t_attach src users (Some t))) = 200
           \<longleftrightarrow> (\<exists>at. signAccessToken lib env (uid (users ! i)) = Inr at)"
proof -
  note L = unique_entry_lookup [OF assms(1,3,4,5)]
  show ?thesis
    unfolding refresh_valid_match [OF assms(2) L(1) L(2) assms(6)]
    by (cases "signAccessToken lib env (uid (users ! i))")
      (simp_all add: respond_def respondWithTokens_def)
qed

section \<open>Reading hex strings back\<close>

lemma less_16_cases:
  assumes "n < (16::nat)"
  obtains "n = 0" | "n = 1" | "n = 2" | "n = 3" | "n = 4" | "n = 5" | "n = 6" | "n = 7"
    | "n = 8" | "n = 9" | "n = 10" | "n = 11" | "n = 12" | "n = 13" | "n = 14" | "n = 15"
  using assms by atomize_elim presburger

lemma hex_value_hex_digit: "n < 16 \<Longrightarrow> hex_value (hex_digit n) = n"
  by (erule less_16_cases) (simp_all add: hex_value_def hex_digit_def)

lemma hex_digit_is_hex: "hex_digit n \<in> set ''0123456789abcdef''"
proof -
  have "n mod 16 < 16" by simp
  then show ?thesis
    unfolding hex_digit_def by (rule less_16_cases) simp_all
qed

lemma set_toString_hex: "set (toString_hex bs) \<subseteq> set ''0123456789abcdef''"
proof -
  have "set (hex_byte b) \<subseteq> set ''0123456789abcdef''" for b
    using hex_digit_is_hex [of "unat b div 16"] hex_digit_is_hex [of "unat b mod 16"]
    by (simp add: hex_byte_def)
  then show ?thesis
    unfolding toString_hex_def by (induction bs) auto
qed

lemma word_of_hex_pair:
  "word_of_nat (16 * hex_value (hex_digit (unat b div 16)) + hex_value (hex_digit (unat b mod 16)))
     = (b :: 8 word)"
proof -
  have "unat b < 256"
    using unsigned_less [of b, where 'a = nat] by simp
  then have "unat b div 16 < 16" by simp
  moreover have "unat b mod 16 < 16" by simp
  ultimately have "16 * hex_value (hex_digit (unat b div 16)) + hex_value (hex_digit (unat b mod 16))
        = unat b"
    by (simp add: hex_value_hex_digit)
  then show ?thesis by simp
qed

lemma fromHex_toString_hex: "fromHex (toString_hex bs) = bs"
proof (induction bs)
  case Nil
  show ?case by (simp add: toString_hex_def)
next
  case (Cons b bs)
  have "toString_hex (b # bs) =
          hex_digit (unat b div 16) # hex_digit (unat b mod 16) # toString_hex bs"
    by (simp add: toString_hex_def hex_byte_def)
  then have "fromHex (toString_hex (b # bs)) =
          word_of_nat (16 * hex_value (hex_digit (unat b div 16))
                       + hex_value (hex_digit (unat b mod 16))) # fromHex (toString_hex bs)"
    by (simp only: fromHex.simps)
  with Cons show ?case
    by (simp only: word_of_hex_pair)
qed

section \<open>The refresh-token store\<close>

text \<open>
  Claim C7. For every collection and timestamp \<open>now\<close>, \<open>pruneExpiredTokens\<close> removes
  exactly the entries whose \<open>expiresAt\<close> is at or before \<open>now\<close> (an entry expiring at
  \<open>now\<close> itself is removed), keeps every entry expiring strictly later, with its
  multiplicity, keeps the kept entries in their order, and changes nothing else of the
  document.
\<close>

theorem pruneExpiredTokens_exact:
  "subseq (refreshTokens (pruneExpiredTokens now u)) (refreshTokens u)
   \<and> mset (refreshTokens (pruneExpiredTokens now u))
       = filter_mset (\<lambda>e. now < expiresAt e) (mset (refreshTokens u))
   \<and> \<lparr>token = h, expiresAt = now\<rparr> \<notin> set (refreshTokens (pruneExpiredTokens now u))
   \<and> pruneExpiredTokens now u = u\<lparr>refreshTokens := refreshTokens (pruneExpiredTokens now u)\<rparr>"
  by (simp add: pruneExpiredTokens_def)

text \<open>
  Claim C7, at a concrete collection: of three entries expiring at 49, 50 and 51, the
  pruning at time 50 keeps the last one only.
\<close>

theorem pruneExpiredTokens_exact_witness:
  "mset (refreshTokens (pruneExpiredTokens 50
      (alice [\<lparr>token = ''a'', expiresAt = 49\<rparr>, \<lparr>token = ''b'', expiresAt = 50\<rparr>,
              \<lparr>token = ''c'', expiresAt = 51\<rparr>])))
   = {#\<lparr>token = ''c'', expiresAt = 51\<rparr>#}"
  using pruneExpiredTokens_exact [of 50
      "alice [\<lparr>token = ''a'', expiresAt = 49\<rparr>, \<lparr>token = ''b'', expiresAt = 50\<rparr>,
              \<lparr>token = ''c'', expiresAt = 51\<rparr>]" "''b''"]
  by (simp add: alice_def)

text \<open>
  Claim C8. For every collection and \<open>maxSize\<close>, \<open>enforceTokenLimit\<close> leaves the
  document unchanged when the collection has at most \<open>maxSize\<close> entries; otherwise it
  removes exactly the \<open>length - maxSize\<close> entries at the front, the remaining entries
  stay in their order, the result has exactly \<open>maxSize\<close> entries, and nothing else of
  the document changes.
\<close>

theorem enforceTokenLimit_fifo:
  "(length (refreshTokens u) \<le> maxSize \<longrightarrow> enforceTokenLimit maxSize u = u)
   \<and> (maxSize < length (refreshTokens u) \<longrightarrow>
        (\<exists>oldest. refreshTokens u = oldest @ refreshTokens (enforceTokenLimit maxSize u)
           \<and> length oldest = length (refreshTokens u) - maxSize)
        \<and> length (refreshTokens (enforceTokenLimit maxSize u)) = maxSize
        \<and> enforceTokenLimit maxSize u
            = u\<lparr>refreshTokens := refreshTokens (enforceTokenLimit maxSize u)\<rparr>)"
proof -
  have "refreshTokens u = take (length (refreshTokens u) - maxSize) (refreshTokens u)
          @ refreshTokens (enforceTokenLimit maxSize u)"
    by (simp add: refreshTokens_enforceTokenLimit)
  moreover have "maxSize < length (refreshTokens u) \<longrightarrow>
      length (take (length (refreshTokens u) - maxSize) (refreshTokens u))
        = length (refreshTokens u) - maxSize"
    by simp
  ultimately have "maxSize < length (refreshTokens u) \<longrightarrow>
        (\<exists>oldest. refreshTokens u = oldest @ refreshTokens (enforceTokenLimit maxSize u)
           \<and> length oldest = length (refreshTokens u) - maxSize)"
    by blast
  then show ?thesis
    by (simp add: enforceTokenLimit_def Let_def)
qed

text \<open>
  Claim C8, at concrete collections: one entry under the limit 2 stays as it is, and
  of three entries the limit 2 keeps two.
\<close>

theorem enforceTokenLimit_fifo_witness:
  "length (refreshTokens (alice [\<lparr>token = ''a'', expiresAt = 1\<rparr>])) \<le> 2
   \<and> enforceTokenLimit 2 (alice [\<lparr>token = ''a'', expiresAt = 1\<rparr>])
       = alice [\<lparr>token = ''a'', expiresAt = 1\<rparr>]
   \<and> 2 < length (refreshTokens
            (alice [\<lparr>token = ''a'', expiresAt = 1\<rparr>, \<lparr>token = ''b'', expiresAt = 2\<rparr>,
                    \<lparr>token = ''c'', expiresAt = 3\<rparr>]))
   \<and> length (refreshTokens (enforceTokenLimit 2
         (alice [\<lparr>token = ''a'', expiresAt = 1\<rparr>, \<lparr>token = ''b'', expiresAt = 2\<rparr>,
                 \<lparr>token = ''c'', expiresAt = 3\<rparr>]))) = 2"
  using enforceTokenLimit_fifo [of "alice [\<lparr>token = ''a'', expiresAt = 1\<rparr>]" 2]
    enforceTokenLimit_fifo [of
      "alice [\<lparr>token = ''a'', expiresAt = 1\<rparr>, \<lparr>token = ''b'', expiresAt = 2\<rparr>,
              \<lparr>token = ''c'', expiresAt = 3\<rparr>]" 2]
  by (simp add: alice_def)

text \<open>
  Claim C6, as stated, fails: with two entries of the same digest in the collection,
  \<open>removeRefreshToken\<close> removes both, where removing the first match only would leave
  the second.
\<close>

theorem removeRefreshToken_counterexample:
  "refreshTokens (fst (removeRefreshToken
       (alice [\<lparr>token = digest_t, expiresAt = 100\<rparr>, \<lparr>token = digest_t, expiresAt = 10\<rparr>])
       digest_t)) = []
   \<and> fst (spec_remove_first digest_t
        [\<lparr>token = digest_t, expiresAt = 100\<rparr>, \<lparr>token = digest_t, expiresAt = 10\<rparr>])
      = [\<lparr>token = digest_t, expiresAt = 10\<rparr>]"
  by code_simp

text \<open>
  Claim C6, amended. For every collection and digest, \<open>removeRefreshToken\<close> removes
  every entry whose stored digest equals the given one, keeps all other entries with
  their multiplicity and in their order, changes nothing else of the document, and
  returns true iff a match existed; if no entry matches, the document is returned
  unchanged with false.
\<close>

theorem removeRefreshToken_removes_all:
  "subseq (refreshTokens (fst (removeRefreshToken u h))) (refreshTokens u)
   \<and> mset (refreshTokens (fst (removeRefreshToken u h)))
       = filter_mset (\<lambda>e. token e \<noteq> h) (mset (refreshTokens u))
   \<and> fst (removeRefreshToken u h) = u\<lparr>refreshTokens := refreshTokens (fst (removeRefreshToken u h))\<rparr>
   \<and> snd (removeRefreshToken u h) = (\<exists>e\<in>set (refreshTokens u). token e = h)
   \<and> (\<not> (\<exists>e\<in>set (refreshTokens u). token e = h) \<longrightarrow> removeRefreshToken u h = (u, False))"
proof -
  have "snd (removeRefreshToken u h) = (\<exists>e\<in>set (refreshTokens u). token e = h)"
    by (simp add: removed_iff_has_token has_token_iff)
  moreover have "\<not> (\<exists>e\<in>set (refreshTokens u). token e = h) \<longrightarrow>
      removeRefreshToken u h = (u, False)"
    using removeRefreshToken_absent [of h u] removed_iff_has_token [of u h]
    by (auto simp: has_token_iff prod_eq_iff)
  ultimately show ?thesis
    by (simp add: fst_removeRefreshToken)
qed

text \<open>
  Claim C6 amended, at concrete collections: a digest that is not stored leaves the
  document as it is and returns false; a digest stored twice is removed twice.
\<close>

theorem removeRefreshToken_removes_all_witness:
  "\<not> (\<exists>e\<in>set (refreshTokens (alice [\<lparr>token = ''a'', expiresAt = 1\<rparr>])). token e = ''b'')
   \<and> removeRefreshToken (alice [\<lparr>token = ''a'', expiresAt = 1\<rparr>]) ''b''
       = (alice [\<lparr>token = ''a'', expiresAt = 1\<rparr>], False)
   \<and> mset (refreshTokens (fst (removeRefreshToken
         (alice [\<lparr>token = ''a'', expiresAt = 1\<rparr>, \<lparr>token = ''b'', expiresAt = 2\<rparr>,
                 \<lparr>token = ''a'', expiresAt = 3\<rparr>]) ''a'')))
       = {#\<lparr>token = ''b'', expiresAt = 2\<rparr>#}"
  using removeRefreshToken_removes_all [of "alice [\<lparr>token = ''a'', expiresAt = 1\<rparr>]" "''b''"]
    removeRefreshToken_removes_all [of
      "alice [\<lparr>token = ''a'', expiresAt = 1\<rparr>, \<lparr>token = ''b'', expiresAt = 2\<rparr>,
              \<lparr>token = ''a'', expiresAt = 3\<rparr>]" "''a''"]
  by (simp add: alice_def)

section \<open>Stored digests and response fields\<close>

text \<open>
  Claim C9. The raw refresh token the issuer produces is the hex encoding of 40 random
  bytes: 80 characters that read back to those bytes. What \<open>attachRefreshToken\<close>, and
  so \<open>issueTokensForUser\<close>, stores for a raw token is the hex encoding of its SHA-256
  digest: 64 lower-case hex characters that read back to the 32 digest bytes, and
  therefore never the raw token itself. The saved document is the old one with the
  surviving entries followed by that one new entry, so when the stored digests had 64
  characters before, no stored value equals the raw token afterwards; the raw value
  is what the caller gets back. The digest function is the library's; of it the
  theorem needs the length of its output only.
\<close>

theorem stored_token_is_digest:
  assumes "\<forall>m. length (sha256 lib m) = 32"
  shows "generateRefreshTokenValue src = toString_hex (map src [0..<40])
    \<and> length (generateRefreshTokenValue src) = 80
    \<and> fromHex (generateRefreshTokenValue src) = map src [0..<40]
    \<and> attachRefreshToken lib env now u v =
        u\<lparr>refreshTokens := refreshTokens u @
          [\<lparr>token = toString_hex (sha256 lib v),
            expiresAt = now + REFRESH_TOKEN_TTL_DAYS env * DAY_IN_MS\<rparr>]\<rparr>
    \<and> fst (snd (issueTokensForUser lib env t_prune t_attach src users i u)) =
        u\<lparr>refreshTokens := kept env t_prune u @
          [\<lparr>token = toString_hex (sha256 lib (generateRefreshTokenValue src)),
            expiresAt = t_attach + REFRESH_TOKEN_TTL_DAYS env * DAY_IN_MS\<rparr>]\<rparr>
    \<and> fst (issueTokensForUser lib env t_prune t_attach src users i u) =
        users[i := fst (snd (issueTokensForUser lib env t_prune t_attach src users i u))]
    \<and> length (toString_hex (sha256 lib (generateRefreshTokenValue src))) = 64
    \<and> fromHex (toString_hex (sha256 lib (generateRefreshTokenValue src)))
        = sha256 lib (generateRefreshTokenValue src)
    \<and> set (toString_hex (sha256 lib (generateRefreshTokenValue src)))
        \<subseteq> set ''0123456789abcdef''
    \<and> toString_hex (sha256 lib (generateRefreshTokenValue src)) \<noteq> generateRefreshTokenValue src
    \<and> (\<forall>tks. snd (snd (issueTokensForUser lib env t_prune t_attach src users i u)) = Inr tks
          \<longrightarrow> refreshToken tks = generateRefreshTokenValue src)
    \<and> ((\<forall>e\<in>set (refreshTokens u). length (token e) = 64) \<longrightarrow>
        (\<forall>e\<in>set (refreshTokens
                    (fst (snd (issueTokensForUser lib env t_prune t_attach src users i u)))).
           length (token e) = 64 \<and> token e \<noteq> generateRefreshTokenValue src))"
proof -
  let ?raw = "generateRefreshTokenValue src"
  let ?dig = "toString_hex (sha256 lib ?raw)"
  let ?u3 = "fst (snd (issueTokensForUser lib env t_prune t_attach src users i u))"
  have gen: "?raw = toString_hex (map src [0..<40])"
    by (simp add: generateRefreshTokenValue_def randomBytes_def)
  have raw: "length ?raw = 80"
    by (rule length_generateRefreshTokenValue)
  have rawbytes: "fromHex ?raw = map src [0..<40]"
    unfolding gen by (rule fromHex_toString_hex)
  have att: "attachRefreshToken lib env now u v =
        u\<lparr>refreshTokens := refreshTokens u @
          [\<lparr>token = toString_hex (sha256 lib v),
            expiresAt = now + REFRESH_TOKEN_TTL_DAYS env * DAY_IN_MS\<rparr>]\<rparr>"
    by (simp add: attachRefreshToken_def hashToken_def Let_def)
  have doc: "?u3 = u\<lparr>refreshTokens := kept env t_prune u @
          [\<lparr>token = ?dig, expiresAt = t_attach + REFRESH_TOKEN_TTL_DAYS env * DAY_IN_MS\<rparr>]\<rparr>"
    by (simp add: issued_document hashToken_def)
  have col: "fst (issueTokensForUser lib env t_prune t_attach src users i u) = users[i := ?u3]"
    by (rule issued_collection)
  have dig: "length ?dig = 64"
    using assms by (simp add: length_toString_hex)
  have digbytes: "fromHex ?dig = sha256 lib ?raw"
    by (rule fromHex_toString_hex)
  have hex: "set ?dig \<subseteq> set ''0123456789abcdef''"
    by (rule set_toString_hex)
  have ne: "?dig \<noteq> ?raw"
  proof
    assume "?dig = ?raw"
    then have "length ?dig = length ?raw" by simp
    with raw dig show False by simp
  qed
  have ret: "\<forall>tks. snd (snd (issueTokensForUser lib env t_prune t_attach src users i u)) = Inr tks
          \<longrightarrow> refreshToken tks = ?raw"
    by (auto simp: issued_tokens split: sum.splits)
  have inv: "(\<forall>e\<in>set (refreshTokens u). length (token e) = 64) \<longrightarrow>
        (\<forall>e\<in>set (refreshTokens ?u3). length (token e) = 64 \<and> token e \<noteq> ?raw)"
  proof (intro impI ballI)
    fix e
    assume old: "\<forall>e\<in>set (refreshTokens u). length (token e) = 64"
      and "e \<in> set (refreshTokens ?u3)"
    then have "e \<in> set (refreshTokens u) \<or> token e = ?dig"
      using set_kept [of env t_prune u] unfolding doc by auto
    with old dig have "length (token e) = 64" by auto
    with raw show "length (token e) = 64 \<and> token e \<noteq> ?raw" by auto
  qed
  from gen raw rawbytes att doc col dig digbytes hex ne ret inv show ?thesis
    by (intro conjI)
qed

text \<open>
  Claim C9, at the example library, whose digest has 32 bytes: the raw token of the
  example random source is 80 characters, its stored digest 64, and they differ.
\<close>

theorem stored_token_is_digest_witness:
  "(\<forall>m. length (sha256 example_lib m) = 32)
   \<and> length (generateRefreshTokenValue example_src) = 80
   \<and> length (toString_hex (sha256 example_lib (generateRefreshTokenValue example_src))) = 64
   \<and> toString_hex (sha256 example_lib (generateRefreshTokenValue example_src))
       \<noteq> generateRefreshTokenValue example_src
   \<and> refreshTokens (fst (snd (issueTokensForUser example_lib example_env 0 0 example_src
        [alice []] 0 (alice []))))
       = [\<lparr>token = ''5050505050505050505050505050505050505050505050505050505050505050'',
           expiresAt = 2592000000\<rparr>]"
proof -
  have h: "\<forall>m. length (sha256 example_lib m) = 32"
    by (simp add: example_lib_def)
  have c: "refreshTokens (fst (snd (issueTokensForUser example_lib example_env 0 0 example_src
        [alice []] 0 (alice []))))
       = [\<lparr>token = ''5050505050505050505050505050505050505050505050505050505050505050'',
           expiresAt = 2592000000\<rparr>]"
    by code_simp
  from stored_token_is_digest [OF h, of example_src] h c show ?thesis
    by blast
qed

text \<open>
  Claim C10. Every response of signup, login or refresh with status 200 or 201 has
  the body built by \<open>respondWithTokens\<close>, which holds both the legacy field \<open>token\<close>
  and the field \<open>accessToken\<close>; the two are equal, and their value is what \<open>jwt.sign\<close>
  returned with the configured secret for the user of the response.
\<close>

theorem legacy_token_equals_accessToken:
  assumes "r = snd (signup lib env t_prune t_attach src newId users nm em pw)
         \<or> r = snd (login lib env t_prune t_attach src users em pw)
         \<or> r = snd (refreshAccessToken lib env t_check t_prune t_attach src users rt)"
    and "status r = 200 \<or> status r = 201"
  shows "\<exists>b secret. body r = TokenBody b \<and> body_token b = body_accessToken b
           \<and> JWT_SECRET env = Some secret
           \<and> jwt_sign lib (payload_id (body_user b)) secret (ACCESS_TOKEN_EXPIRES_IN env)
               = Inr (body_accessToken b)"
proof -
  from assms(2) have st: "status r \<in> {200, 201}" by auto
  from assms(1) st have "token_fields_agree lib env r"
    using signup_agree [of lib env t_prune t_attach src newId users nm em pw]
      login_agree [of lib env t_prune t_attach src users em pw]
      refresh_agree [of lib env t_check t_prune t_attach src users rt]
    by blast
  then show ?thesis
    by (simp add: token_fields_agree_def)
qed

text \<open>
  Claim C10, at a concrete login: the user logs in with the right password, the
  status is 200 and both fields hold the signed token.
\<close>

theorem legacy_token_equals_accessToken_witness:
  "status (snd (login example_lib example_env 0 0 example_src [alice []]
                  (Some ''a@x.com'') (Some ''p''))) = 200
   \<and> (\<exists>b secret.
        body (snd (login example_lib example_env 0 0 example_src [alice []]
                     (Some ''a@x.com'') (Some ''p''))) = TokenBody b
        \<and> body_token b = body_accessToken b
        \<and> JWT_SECRET example_env = Some secret
        \<and> jwt_sign example_lib (payload_id (body_user b)) secret
              (ACCESS_TOKEN_EXPIRES_IN example_env) = Inr (body_accessToken b))"
proof -
  have st: "status (snd (login example_lib example_env 0 0 example_src [alice []]
                  (Some ''a@x.com'') (Some ''p''))) = 200"
    by code_simp
  from legacy_token_equals_accessToken [of
      "snd (login example_lib example_env 0 0 example_src [alice []] (Some ''a@x.com'') (Some ''p''))"
      example_lib example_env 0 0 example_src 0 "[alice []]" None "Some ''a@x.com''" "Some ''p''" 0 None]
    st
  show ?thesis by blast
qed

section \<open>Refresh and logout\<close>

text \<open>
  Claim C4. When no stored entry of any user has the digest of the submitted
  (non-empty) refresh token, \<open>refreshAccessToken\<close> leaves the whole collection as it is
  and answers 401 with the message the code spells \<open>Invalid refresh token\<close>.
\<close>

theorem refresh_unknown_token:
  assumes "t \<noteq> []"
    and "\<forall>u\<in>set users. \<forall>e\<in>set (refreshTokens u). token e \<noteq> hashToken lib t"
  shows "refreshAccessToken lib env t_check t_prune t_attach src users (Some t) =
           (users, \<lparr>status = 401, body = Message ''Invalid refresh token''\<rparr>)"
proof -
  from assms(2) have "findOne_by_token users (hashToken lib t) = None"
    by (simp add: findOne_by_token_None has_token_iff)
  with assms(1) show ?thesis
    by (rule refresh_not_found)
qed

text \<open>
  Claim C4, at a concrete collection: the token \<open>zz\<close> was never issued, the stored
  digest is that of another token.
\<close>

theorem refresh_unknown_token_witness:
  "''zz'' \<noteq> []
   \<and> \<not> has_token (hashToken example_lib ''zz'') (alice [\<lparr>token = digest_t, expiresAt = 100\<rparr>])
   \<and> refreshAccessToken example_lib example_env 50 50 50 example_src
        [alice [\<lparr>token = digest_t, expiresAt = 100\<rparr>]] (Some ''zz'') =
       ([alice [\<lparr>token = digest_t, expiresAt = 100\<rparr>]],
        \<lparr>status = 401, body = Message ''Invalid refresh token''\<rparr>)"
proof -
  have h1: "''zz'' \<noteq> []" by simp
  have h2: "\<forall>u\<in>set [alice [\<lparr>token = digest_t, expiresAt = 100\<rparr>]].
        \<forall>e\<in>set (refreshTokens u). token e \<noteq> hashToken example_lib ''zz''"
    by code_simp
  have h3: "\<not> has_token (hashToken example_lib ''zz'')
              (alice [\<lparr>token = digest_t, expiresAt = 100\<rparr>])"
    by code_simp
  from refresh_unknown_token [OF h1 h2, of example_env 50 50 50 example_src] h1 h3
  show ?thesis by blast
qed

text \<open>
  Claim C3. In every state of the store (no digest stored twice) in which the digest
  of the submitted, non-empty refresh token is that of an entry whose \<open>expiresAt\<close> is
  at or before the time of the check, \<open>refreshAccessToken\<close> removes that entry from its
  user's collection, saves the document, leaves everything else as it is, and answers
  401 with the message the code spells \<open>Refresh token expired\<close>.
\<close>

theorem refresh_expired_match:
  assumes "digest_unique users" and "t \<noteq> []"
    and "i < length users" and "e \<in> set (refreshTokens (users ! i))"
    and "token e = hashToken lib t" and "expiresAt e \<le> t_check"
  shows "refreshAccessToken lib env t_check t_prune t_attach src users (Some t) =
           (users[i := (users ! i)\<lparr>refreshTokens := remove1 e (refreshTokens (users ! i))\<rparr>],
            \<lparr>status = 401, body = Message ''Refresh token expired''\<rparr>)
         \<and> e \<notin> set (refreshTokens
                 (fst (refreshAccessToken lib env t_check t_prune t_attach src users (Some t)) ! i))
         \<and> hashToken lib t \<notin> set (stored_digests
                 (fst (refreshAccessToken lib env t_check t_prune t_attach src users (Some t))))"
proof -
  let ?h = "hashToken lib t"
  let ?u' = "(users ! i)\<lparr>refreshTokens := remove1 e (refreshTokens (users ! i))\<rparr>"
  note L = unique_entry_lookup [OF assms(1,3,4,5)]
  have "\<not> falsy (Some t)"
    using assms(2) by (simp add: falsy_def)
  then have r: "refreshAccessToken lib env t_check t_prune t_attach src users (Some t) =
           (users[i := ?u'], \<lparr>status = 401, body = Message ''Refresh token expired''\<rparr>)"
    unfolding refreshAccessToken_def
    by (simp add: L(1,2,3) assms(6) respond_def save_def)
  have gone: "e \<notin> set (refreshTokens (users[i := ?u'] ! i))"
    using assms(3) L(4) by simp
  have "\<not> has_token ?h v" if "v \<in> set (users[i := ?u'])" for v
  proof -
    from that obtain j where j: "j < length users" "v = users[i := ?u'] ! j"
      by (auto simp: in_set_conv_nth)
    show ?thesis
    proof (cases "j = i")
      case True
      with j assms(3) have "v = fst (removeRefreshToken (users ! i) ?h)"
        by (simp add: L(3))
      then show ?thesis by (simp add: not_has_token_removeRefreshToken)
    next
      case False
      have "has_token ?h (users ! i)"
        using assms(4,5) by (auto simp: has_token_iff)
      with digest_unique_holder [OF assms(1) j(1) assms(3)] False
      have "\<not> has_token ?h (users ! j)" by blast
      with False j show ?thesis by simp
    qed
  qed
  then have "?h \<notin> set (stored_digests (users[i := ?u']))"
    by (auto simp: in_stored_digests_iff)
  with gone show ?thesis
    unfolding r by simp
qed

text \<open>
  Claim C3, at a concrete collection: the entry expired at 10, the check is at 50;
  the entry is removed and the answer is 401.
\<close>

theorem refresh_expired_match_witness:
  "digest_unique [alice [\<lparr>token = digest_t, expiresAt = 10\<rparr>], bob []]
   \<and> ''t'' \<noteq> []
   \<and> \<lparr>token = digest_t, expiresAt = 10\<rparr>
        \<in> set (refreshTokens ([alice [\<lparr>token = digest_t, expiresAt = 10\<rparr>], bob []] ! 0))
   \<and> token \<lparr>token = digest_t, expiresAt = 10\<rparr> = hashToken example_lib ''t''
   \<and> expiresAt \<lparr>token = digest_t, expiresAt = 10\<rparr> \<le> 50
   \<and> refreshAccessToken example_lib example_env 50 50 50 example_src
        [alice [\<lparr>token = digest_t, expiresAt = 10\<rparr>], bob []] (Some ''t'') =
       ([alice [], bob []], \<lparr>status = 401, body = Message ''Refresh token expired''\<rparr>)"
proof -
  have h1: "digest_unique [alice [\<lparr>token = digest_t, expiresAt = 10\<rparr>], bob []]"
    by code_simp
  have h2: "''t'' \<noteq> []" by simp
  have h3: "0 < length [alice [\<lparr>token = digest_t, expiresAt = 10\<rparr>], bob []]" by simp
  have h4: "\<lparr>token = digest_t, expiresAt = 10\<rparr>
        \<in> set (refreshTokens ([alice [\<lparr>token = digest_t, expiresAt = 10\<rparr>], bob []] ! 0))"
    by (simp add: alice_def)
  have h5: "token \<lparr>token = digest_t, expiresAt = 10\<rparr> = hashToken example_lib ''t''"
    by (simp add: digest_t_def)
  have h6: "expiresAt \<lparr>token = digest_t, expiresAt = 10\<rparr> \<le> 50" by simp
  have c: "[alice [\<lparr>token = digest_t, expiresAt = 10\<rparr>], bob []]
             [0 := ([alice [\<lparr>token = digest_t, expiresAt = 10\<rparr>], bob []] ! 0)
                \<lparr>refreshTokens := remove1 \<lparr>token = digest_t, expiresAt = 10\<rparr>
                   (refreshTokens ([alice [\<lparr>token = digest_t, expiresAt = 10\<rparr>], bob []] ! 0))\<rparr>]
           = [alice [], bob []]"
    by (simp add: alice_def)
  from refresh_expired_match [OF h1 h2 h3 h4 h5 h6, of example_env 50 50 example_src,
      unfolded c]
  have "refreshAccessToken example_lib example_env 50 50 50 example_src
        [alice [\<lparr>token = digest_t, expiresAt = 10\<rparr>], bob []] (Some ''t'') =
       ([alice [], bob []], \<lparr>status = 401, body = Message ''Refresh token expired''\<rparr>)"
    by (rule conjunct1)
  with h1 h2 h4 h5 h6 show ?thesis by blast
qed



text \<open>
  Claim C5. In every state of the store (no digest stored twice) and for every present
  (non-empty) refresh-token value, logout called twice with that token answers 200
  with the same body both times. The first call removes the entry with the token's
  digest if there is one, and leaves the collection as it is if there is none; after
  it the digest is not stored, and the second call changes nothing in the storage.
\<close>

theorem logout_twice:
  assumes "digest_unique users" and "t \<noteq> []"
  shows "logout lib users (Some t) =
           (map (\<lambda>u. fst (removeRefreshToken u (hashToken lib t))) users,
            \<lparr>status = 200, body = Message ''Logged out successfully''\<rparr>)
       \<and> logout lib (fst (logout lib users (Some t))) (Some t) =
           (fst (logout lib users (Some t)),
            \<lparr>status = 200, body = Message ''Logged out successfully''\<rparr>)
       \<and> (\<forall>i e. i < length users \<longrightarrow> e \<in> set (refreshTokens (users ! i)) \<longrightarrow>
              token e = hashToken lib t \<longrightarrow>
              fst (logout lib users (Some t)) =
                users[i := (users ! i)\<lparr>refreshTokens := remove1 e (refreshTokens (users ! i))\<rparr>])
       \<and> (hashToken lib t \<notin> set (stored_digests users) \<longrightarrow>
              fst (logout lib users (Some t)) = users)
       \<and> hashToken lib t \<notin> set (stored_digests (fst (logout lib users (Some t))))"
proof -
  let ?h = "hashToken lib t"
  let ?users1 = "map (\<lambda>u. fst (removeRefreshToken u ?h)) users"
  let ?ok = "\<lparr>status = 200, body = Message ''Logged out successfully''\<rparr>"
  have first: "logout lib users (Some t) = (?users1, ?ok)"
  proof (cases "findOne_by_token users ?h")
    case None
    then have "\<forall>u\<in>set users. \<not> has_token ?h u"
      by (simp add: findOne_by_token_None)
    then have "?users1 = users"
      by (simp add: removeRefreshToken_absent map_idI)
    with logout_not_found [OF assms(2) None] show ?thesis by simp
  next
    case (Some p)
    obtain i u where p: "p = (i, u)" by (cases p)
    with Some have f: "findOne_by_token users ?h = Some (i, u)" by simp
    then have iu: "i < length users" "users ! i = u" "has_token ?h (users ! i)"
      by (auto simp: findOne_by_token_Some)
    have "\<forall>j<length users. j \<noteq> i \<longrightarrow> \<not> has_token ?h (users ! j)"
      using digest_unique_holder [OF assms(1) _ iu(1) _ iu(3)] by blast
    with iu have "users[i := fst (removeRefreshToken u ?h)] = ?users1"
      by (intro update_only_holder)
    with logout_found [OF assms(2) f] show ?thesis by simp
  qed
  have none: "\<forall>u\<in>set ?users1. \<not> has_token ?h u"
    by (simp add: not_has_token_removeRefreshToken)
  then have "findOne_by_token ?users1 ?h = None"
    by (simp only: findOne_by_token_None)
  from logout_not_found [OF assms(2) this] first
  have second: "logout lib (fst (logout lib users (Some t))) (Some t) =
           (fst (logout lib users (Some t)), ?ok)"
    by simp
  have one: "\<forall>i e. i < length users \<longrightarrow> e \<in> set (refreshTokens (users ! i)) \<longrightarrow>
              token e = ?h \<longrightarrow>
              fst (logout lib users (Some t)) =
                users[i := (users ! i)\<lparr>refreshTokens := remove1 e (refreshTokens (users ! i))\<rparr>]"
  proof (intro allI impI)
    fix i e
    assume a: "i < length users" "e \<in> set (refreshTokens (users ! i))" "token e = ?h"
    note L = unique_entry_lookup [OF assms(1) a]
    from logout_found [OF assms(2) L(1)]
    show "fst (logout lib users (Some t)) =
            users[i := (users ! i)\<lparr>refreshTokens := remove1 e (refreshTokens (users ! i))\<rparr>]"
      by (simp only: L(3) fst_conv)
  qed
  have absent: "?h \<notin> set (stored_digests users) \<longrightarrow> fst (logout lib users (Some t)) = users"
  proof
    assume "?h \<notin> set (stored_digests users)"
    then have "findOne_by_token users ?h = None"
      by (simp add: findOne_by_token_None in_stored_digests_iff)
    from logout_not_found [OF assms(2) this] show "fst (logout lib users (Some t)) = users"
      by simp
  qed
  from none have gone: "?h \<notin> set (stored_digests (fst (logout lib users (Some t))))"
    unfolding first by (simp add: in_stored_digests_iff)
  from first second one absent gone show ?thesis
    by (intro conjI)
qed

text \<open>
  Claim C5, at a concrete collection: one user holds the digest, the other does not;
  after the first logout the entry is gone, and the second logout returns the same
  collection.
\<close>

theorem logout_twice_witness:
  "digest_unique [alice [\<lparr>token = digest_t, expiresAt = 100\<rparr>], bob []]
   \<and> ''t'' \<noteq> []
   \<and> logout example_lib [alice [\<lparr>token = digest_t, expiresAt = 100\<rparr>], bob []] (Some ''t'')
       = ([alice [], bob []], \<lparr>status = 200, body = Message ''Logged out successfully''\<rparr>)
   \<and> logout example_lib [alice [], bob []] (Some ''t'')
       = ([alice [], bob []], \<lparr>status = 200, body = Message ''Logged out successfully''\<rparr>)"
proof -
  have h1: "digest_unique [alice [\<lparr>token = digest_t, expiresAt = 100\<rparr>], bob []]"
    by code_simp
  have h2: "''t'' \<noteq> []" by simp
  have c: "map (\<lambda>u. fst (removeRefreshToken u (hashToken example_lib ''t'')))
             [alice [\<lparr>token = digest_t, expiresAt = 100\<rparr>], bob []] = [alice [], bob []]"
    by code_simp
  note both = logout_twice [OF h1 h2, of example_lib, unfolded c]
  from both
  have first: "logout example_lib [alice [\<lparr>token = digest_t, expiresAt = 100\<rparr>], bob []] (Some ''t'')
       = ([alice [], bob []], \<lparr>status = 200, body = Message ''Logged out successfully''\<rparr>)"
    by (rule conjunct1)
  from both
  have "logout example_lib
          (fst (logout example_lib [alice [\<lparr>token = digest_t, expiresAt = 100\<rparr>], bob []]
                  (Some ''t''))) (Some ''t'')
       = (fst (logout example_lib [alice [\<lparr>token = digest_t, expiresAt = 100\<rparr>], bob []]
                 (Some ''t'')),
          \<lparr>status = 200, body = Message ''Logged out successfully''\<rparr>)"
    by (rule conjunct2 [THEN conjunct1])
  then have "logout example_lib [alice [], bob []] (Some ''t'')
       = ([alice [], bob []], \<lparr>status = 200, body = Message ''Logged out successfully''\<rparr>)"
    unfolding first by (simp only: fst_conv)
  with first h1 h2 show ?thesis by blast
qed

section \<open>The bound on the stored collection\<close>

text \<open>
  Claim C1 says that after every issuance the stored collection has at most
  \<open>MAX_REFRESH_TOKENS\<close> entries, the most recent ones. The code applies the limit
  before it pushes the new entry (lemma \<open>issued_length\<close>), so the saved collection can
  hold one more. With the default maximum of 5 and no entry expiring, the user's
  collection has 5 entries after five logins, and 6 after the sixth and after the
  seventh.
\<close>

theorem six_logins_store_six_tokens:
  "MAX_REFRESH_TOKENS example_env = 5
   \<and> map (length \<circ> refreshTokens) (login_n 5 [alice []]) = [5]
   \<and> map (length \<circ> refreshTokens) (login_n 6 [alice []]) = [6]
   \<and> map (length \<circ> refreshTokens) (login_n 7 [alice []]) = [6]"
  by code_simp

end
